theory Spec2Isabelle
  imports Main
begin

section \<open>OpenStackAmuletDeployment: the object and the release tables\<close>

text \<open>
  Shallow embedding of \<^verbatim>\<open>charmhelpers/contrib/openstack/amulet/deployment.py\<close>.
  The object \<^verbatim>\<open>self\<close> carries four attributes set by \<^verbatim>\<open>__init__\<close>:
  \<^verbatim>\<open>series\<close>, \<^verbatim>\<open>openstack\<close> and \<^verbatim>\<open>source\<close> (each a string or
  \<^verbatim>\<open>None\<close>) and \<^verbatim>\<open>stable\<close>.
\<close>

record deployment =
  series :: "string option"
  openstack :: "string option"
  source :: "string option"
  stable :: bool

text \<open>The exceptions the modelled code can raise, under their Python names.\<close>

datatype error = KeyError | IndexError | ValueError | TimeoutError

text \<open>Python truthiness of an optional string: \<^verbatim>\<open>None\<close> and \<^verbatim>\<open>''\<close> are false.\<close>

fun truthy :: "string option \<Rightarrow> bool" where
  "truthy None = False"
| "truthy (Some s) = (s \<noteq> [])"

text \<open>What \<^verbatim>\<open>'{}'.format(x)\<close> and \<^verbatim>\<open>'%s' % x\<close> print for a string or \<^verbatim>\<open>None\<close>.\<close>

fun py_str :: "string option \<Rightarrow> string" where
  "py_str None = ''None''"
| "py_str (Some s) = s"

subsection \<open>The release ordinals\<close>

text \<open>
  \<^verbatim>\<open>_get_openstack_release\<close> binds sixteen attributes to \<^verbatim>\<open>range(16)\<close>,
  in the order of the tuple, which the source comment requires to be the order of the
  OpenStack releases.
\<close>

definition precise_essex :: int where "precise_essex = 0"
definition precise_folsom :: int where "precise_folsom = 1"
definition precise_grizzly :: int where "precise_grizzly = 2"
definition precise_havana :: int where "precise_havana = 3"
definition precise_icehouse :: int where "precise_icehouse = 4"
definition trusty_icehouse :: int where "trusty_icehouse = 5"
definition trusty_juno :: int where "trusty_juno = 6"
definition utopic_juno :: int where "utopic_juno = 7"
definition trusty_kilo :: int where "trusty_kilo = 8"
definition vivid_kilo :: int where "vivid_kilo = 9"
definition trusty_liberty :: int where "trusty_liberty = 10"
definition wily_liberty :: int where "wily_liberty = 11"
definition trusty_mitaka :: int where "trusty_mitaka = 12"
definition xenial_mitaka :: int where "xenial_mitaka = 13"
definition xenial_newton :: int where "xenial_newton = 14"
definition yakkety_newton :: int where "yakkety_newton = 15"

text \<open>The attributes in the order of the tuple of the source.\<close>

definition release_order :: "int list" where
  "release_order =
     [precise_essex, precise_folsom, precise_grizzly, precise_havana, precise_icehouse,
      trusty_icehouse, trusty_juno, utopic_juno, trusty_kilo, vivid_kilo, trusty_liberty,
      wily_liberty, trusty_mitaka, xenial_mitaka, xenial_newton, yakkety_newton]"

text \<open>
  The dictionary \<^verbatim>\<open>releases\<close> of \<^verbatim>\<open>_get_openstack_release\<close>, keyed by the pair
  \<^verbatim>\<open>(self.series, self.openstack)\<close>, in the order of the source.
\<close>

definition releases :: "((string option \<times> string option) \<times> int) list" where
  "releases =
     [((Some ''precise'', None), precise_essex),
      ((Some ''precise'', Some ''cloud:precise-folsom''), precise_folsom),
      ((Some ''precise'', Some ''cloud:precise-grizzly''), precise_grizzly),
      ((Some ''precise'', Some ''cloud:precise-havana''), precise_havana),
      ((Some ''precise'', Some ''cloud:precise-icehouse''), precise_icehouse),
      ((Some ''trusty'', None), trusty_icehouse),
      ((Some ''trusty'', Some ''cloud:trusty-juno''), trusty_juno),
      ((Some ''trusty'', Some ''cloud:trusty-kilo''), trusty_kilo),
      ((Some ''trusty'', Some ''cloud:trusty-liberty''), trusty_liberty),
      ((Some ''trusty'', Some ''cloud:trusty-mitaka''), trusty_mitaka),
      ((Some ''utopic'', None), utopic_juno),
      ((Some ''vivid'', None), vivid_kilo),
      ((Some ''wily'', None), wily_liberty),
      ((Some ''xenial'', None), xenial_mitaka),
      ((Some ''xenial'', Some ''cloud:xenial-newton''), xenial_newton),
      ((Some ''yakkety'', None), yakkety_newton)]"

text \<open>
  \<^verbatim>\<open>return releases[(self.series, self.openstack)]\<close>: a missing key raises
  \<^verbatim>\<open>KeyError\<close>.
\<close>

definition get_openstack_release :: "deployment \<Rightarrow> error + int" where
  "get_openstack_release self =
     (case map_of releases (series self, openstack self) of
        None \<Rightarrow> Inl KeyError
      | Some v \<Rightarrow> Inr v)"

subsection \<open>The release codename\<close>

text \<open>
  \<^verbatim>\<open>str.split(sep)\<close> for a non-empty separator: the pieces between the
  non-overlapping occurrences of \<^verbatim>\<open>sep\<close>, found from the left. \<^verbatim>\<open>acc\<close> holds the
  current piece, reversed.
\<close>

function split_from :: "string \<Rightarrow> string \<Rightarrow> string \<Rightarrow> string list" where
  "split_from sep acc [] = [rev acc]"
| "split_from sep acc (c # cs) =
     (if sep \<noteq> [] \<and> take (length sep) (c # cs) = sep
      then rev acc # split_from sep [] (drop (length sep) (c # cs))
      else split_from sep (c # acc) cs)"
  by pat_completeness auto
termination
  by (relation "measure (\<lambda>(sep, acc, s). length s)") auto

text \<open>Python raises \<^verbatim>\<open>ValueError\<close> for an empty separator.\<close>

definition py_split :: "string \<Rightarrow> string \<Rightarrow> error + string list" where
  "py_split s sep = (if sep = [] then Inl ValueError else Inr (split_from sep [] s))"

text \<open>\<^verbatim>\<open>xs[i]\<close> for a non-negative index: \<^verbatim>\<open>IndexError\<close> out of range.\<close>

definition py_index :: "'a list \<Rightarrow> nat \<Rightarrow> error + 'a" where
  "py_index xs i = (if i < length xs then Inr (xs ! i) else Inl IndexError)"

text \<open>Sequencing of computations that may raise.\<close>

fun bind_err :: "error + 'a \<Rightarrow> ('a \<Rightarrow> error + 'b) \<Rightarrow> error + 'b" where
  "bind_err (Inl e) f = Inl e"
| "bind_err (Inr x) f = f x"

text \<open>The \<^verbatim>\<open>OrderedDict\<close> of \<^verbatim>\<open>_get_openstack_release_string\<close>.\<close>

definition codenames :: "(string \<times> string) list" where
  "codenames =
     [(''precise'', ''essex''),
      (''quantal'', ''folsom''),
      (''raring'', ''grizzly''),
      (''saucy'', ''havana''),
      (''trusty'', ''icehouse''),
      (''utopic'', ''juno''),
      (''vivid'', ''kilo''),
      (''wily'', ''liberty''),
      (''xenial'', ''mitaka''),
      (''yakkety'', ''newton'')]"

text \<open>
  \<^verbatim>\<open>releases[self.series]\<close>: the key \<^verbatim>\<open>None\<close> is not in the dictionary.
\<close>

definition codename_of_series :: "string option \<Rightarrow> error + string" where
  "codename_of_series ser =
     (case ser of
        None \<Rightarrow> Inl KeyError
      | Some s \<Rightarrow> (case map_of codenames s of None \<Rightarrow> Inl KeyError | Some c \<Rightarrow> Inr c))"

text \<open>
  \<^verbatim>\<open>_get_openstack_release_string\<close>. With a truthy \<^verbatim>\<open>self.openstack\<close>:
  \<^verbatim>\<open>os_origin = self.openstack.split(':')[1]\<close>, then
  \<^verbatim>\<open>os_origin.split('%s-' % self.series)[1].split('/')[0]\<close>.
\<close>

definition get_openstack_release_string :: "deployment \<Rightarrow> error + string" where
  "get_openstack_release_string self =
     (if truthy (openstack self)
      then bind_err (py_split (the (openstack self)) '':'') (\<lambda>parts.
           bind_err (py_index parts 1) (\<lambda>os_origin.
           bind_err (py_split os_origin (py_str (series self) @ ''-'')) (\<lambda>parts2.
           bind_err (py_index parts2 1) (\<lambda>rest.
           bind_err (py_split rest ''/'') (\<lambda>parts3.
           py_index parts3 0)))))
      else codename_of_series (series self))"

subsection \<open>Expected ceph pools\<close>

text \<open>
  \<^verbatim>\<open>get_ceph_expected_pools\<close>: the comparison calls \<^verbatim>\<open>_get_openstack_release\<close>
  first, whose \<^verbatim>\<open>KeyError\<close> propagates.
\<close>

definition get_ceph_expected_pools :: "deployment \<Rightarrow> bool \<Rightarrow> error + string list" where
  "get_ceph_expected_pools self radosgw =
     bind_err (get_openstack_release self) (\<lambda>rel.
       let pools = (if rel \<ge> trusty_kilo
                    then [''rbd'', ''cinder'', ''glance'']
                    else [''data'', ''metadata'', ''rbd'', ''cinder'', ''glance''])
       in Inr (if radosgw
               then pools @ [''.rgw.root'', ''.rgw.control'', ''.rgw'', ''.rgw.gc'', ''.users.uid'']
               else pools))"

subsection \<open>Chronology of the codenames\<close>

text \<open>Position of the first occurrence of a value in a list.\<close>

fun index_of :: "'a \<Rightarrow> 'a list \<Rightarrow> nat" where
  "index_of x [] = 0"
| "index_of x (y # ys) = (if x = y then 0 else Suc (index_of x ys))"

text \<open>
  The codenames in the order of the \<^verbatim>\<open>OrderedDict\<close>, which is the order in which the
  OpenStack releases appeared (Essex first, Newton last).
\<close>

definition chronology :: "string list" where
  "chronology = map snd codenames"

section \<open>Services and the deployment driver\<close>

subsection \<open>Service dictionaries and the objects the caller shares\<close>

text \<open>
  The service dictionary of the docstring of \<^verbatim>\<open>_add_services\<close>: \<^verbatim>\<open>name\<close> is a
  string and always present; \<^verbatim>\<open>units\<close>, \<^verbatim>\<open>constraints\<close> and \<^verbatim>\<open>location\<close> may
  be missing.
\<close>

record service =
  name :: string
  units :: "int option"
  constraints :: "(string \<times> string) list option"
  location :: "string option"

text \<open>
  The code mutates the dictionaries and the list it is given, so both live in a store and
  are passed by reference. A reference always denotes an object, hence the store is total.
  \<^verbatim>\<open>message\<close> of \<^verbatim>\<open>_auto_wait_for_status\<close> is a compiled pattern (its text and
  whether \<^verbatim>\<open>re.IGNORECASE\<close> is set), a string, or a set of strings.
\<close>

type_synonym ref = nat

datatype matcher = Pattern string bool | Literal string | Literals "string list"

text \<open>The calls received by the collaborators, with the values of their arguments.\<close>

datatype call =
    AddServices service "service list"
  | Configure string "(string \<times> string) list"
  | WaitForMessages "string \<Rightarrow> matcher option" int

record world =
  dicts :: "ref \<Rightarrow> service"
  list_objs :: "ref \<Rightarrow> ref list"
  d_services :: "string list"
  sentry_times_out :: bool
  calls :: "call list"

text \<open>
  Modelled from the spec: \<^verbatim>\<open>AmuletDeployment._add_services\<close> of the base class, the
  driver's \<^verbatim>\<open>add_services(this_service, other_services)\<close>, which is not part of the
  source under study. It is recorded as a call with the specs as they are when it is
  invoked, and it leaves the specs and the list as it finds them.
\<close>

definition driver_add_services :: "world \<Rightarrow> ref \<Rightarrow> ref \<Rightarrow> world" where
  "driver_add_services w this_service other_services =
     w\<lparr>calls := calls w @
          [AddServices (dicts w this_service) (map (dicts w) (list_objs w other_services))]\<rparr>"

text \<open>
  Modelled from the spec: \<^verbatim>\<open>self.d.configure(service_name, config_mapping)\<close> of the
  driver, which is not part of the source under study. It is recorded as a call.
\<close>

definition driver_configure :: "world \<Rightarrow> string \<Rightarrow> (string \<times> string) list \<Rightarrow> world" where
  "driver_configure w service_name config = w\<lparr>calls := calls w @ [Configure service_name config]\<rparr>"

text \<open>
  Modelled from the spec: \<^verbatim>\<open>self.d.sentry.wait_for_messages(mapping, timeout)\<close> of the
  sentry collaborator, which is not part of the source under study. It is recorded as a
  call; it blocks until satisfied or raises on timeout, which the environment decides.
\<close>

definition sentry_wait_for_messages ::
  "world \<Rightarrow> (string \<Rightarrow> matcher option) \<Rightarrow> int \<Rightarrow> (error + unit) \<times> world" where
  "sentry_wait_for_messages w service_messages timeout =
     (if sentry_times_out w then Inl TimeoutError else Inr (),
      w\<lparr>calls := calls w @ [WaitForMessages service_messages timeout]\<rparr>)"

subsection \<open>Branch locations\<close>

text \<open>The dictionary \<^verbatim>\<open>base_charms\<close> of \<^verbatim>\<open>_determine_branch_locations\<close>.\<close>

definition base_charms :: "(string \<times> string list) list" where
  "base_charms =
     [(''mysql'', [''precise'', ''trusty'']),
      (''mongodb'', [''precise'', ''trusty'']),
      (''nrpe'', [''precise'', ''trusty'', ''wily'', ''xenial''])]"

text \<open>
  The location the loop body assigns to a service called \<^verbatim>\<open>nm\<close>, once the guard
  \<^verbatim>\<open>if svc.get('location'): continue\<close> has let the service through.
  \<^verbatim>\<open>base_charms[nm][-1]\<close> is the last entry of a list that is never empty in the table.
\<close>

definition branch_location :: "deployment \<Rightarrow> string \<Rightarrow> string" where
  "branch_location self nm =
     (case map_of base_charms nm of
        Some supported \<Rightarrow>
          (let target_series =
                 (if series self \<notin> set (map Some supported)
                  then Some (last supported)
                  else series self)
           in ''cs:'' @ py_str target_series @ ''/'' @ nm)
      | None \<Rightarrow>
          (if stable self
           then ''cs:'' @ py_str (series self) @ ''/'' @ nm
           else ''cs:~openstack-charmers-next/'' @ py_str (series self) @ ''/'' @ nm))"

text \<open>The loop \<^verbatim>\<open>for svc in other_services\<close>, over the references held by the list.\<close>

fun resolve_each :: "deployment \<Rightarrow> ref list \<Rightarrow> (ref \<Rightarrow> service) \<Rightarrow> (ref \<Rightarrow> service)" where
  "resolve_each self [] h = h"
| "resolve_each self (r # rs) h =
     resolve_each self rs
       (if truthy (location (h r)) then h
        else h(r := (h r)\<lparr>location := Some (branch_location self (name (h r)))\<rparr>))"

text \<open>\<^verbatim>\<open>_determine_branch_locations\<close> returns the list it was given.\<close>

definition determine_branch_locations :: "deployment \<Rightarrow> world \<Rightarrow> ref \<Rightarrow> world \<times> ref" where
  "determine_branch_locations self w other_services =
     (w\<lparr>dicts := resolve_each self (list_objs w other_services) (dicts w)\<rparr>, other_services)"

subsection \<open>Adding and configuring services\<close>

definition default_use_source :: "string list" where
  "default_use_source =
     [''mysql'', ''mongodb'', ''rabbitmq-server'', ''ceph'',
      ''ceph-osd'', ''ceph-radosgw'', ''ceph-mon'', ''ceph-proxy'']"

definition default_no_origin :: "string list" where
  "default_no_origin =
     [''cinder-ceph'', ''hacluster'', ''neutron-openvswitch'',
      ''nrpe'', ''openvswitch-odl'', ''neutron-api-odl'',
      ''odl-controller'', ''cinder-backup'', ''nexentaedge-data'',
      ''nexentaedge-iscsi-gw'', ''nexentaedge-swift-gw'',
      ''cinder-nexentaedge'', ''nexentaedge-mgmt'']"

text \<open>Python truthiness of an optional list: \<^verbatim>\<open>None\<close> and \<^verbatim>\<open>[]\<close> are false.\<close>

fun truthy_list :: "'a list option \<Rightarrow> bool" where
  "truthy_list None = False"
| "truthy_list (Some xs) = (xs \<noteq> [])"

text \<open>
  \<^verbatim>\<open>if not use_source: use_source = [...]\<close> and
  \<^verbatim>\<open>if not no_origin: no_origin = [...]\<close>.
\<close>

definition use_source_or_default :: "string list option \<Rightarrow> string list" where
  "use_source_or_default use_source =
     (if \<not> truthy_list use_source then default_use_source else the use_source)"

definition no_origin_or_default :: "string list option \<Rightarrow> string list" where
  "no_origin_or_default no_origin =
     (if \<not> truthy_list no_origin then default_no_origin else the no_origin)"

text \<open>
  A loop \<^verbatim>\<open>for svc in services: if p(svc['name']): self.d.configure(svc['name'], config)\<close>.
\<close>

fun configure_where ::
  "(string \<Rightarrow> bool) \<Rightarrow> (string \<times> string) list \<Rightarrow> ref list \<Rightarrow> world \<Rightarrow> world" where
  "configure_where p config [] w = w"
| "configure_where p config (r # rs) w =
     configure_where p config rs
       (if p (name (dicts w r)) then driver_configure w (name (dicts w r)) config else w)"

text \<open>
  \<^verbatim>\<open>_add_services\<close>. \<^verbatim>\<open>services = other_services\<close> is a second name for the
  caller's list, to which \<^verbatim>\<open>this_service\<close> is appended.
\<close>

definition add_services ::
  "deployment \<Rightarrow> world \<Rightarrow> ref \<Rightarrow> ref \<Rightarrow> string list option \<Rightarrow> string list option \<Rightarrow> world" where
  "add_services self w this_service other_services use_source no_origin =
     (let (w1, other_services) = determine_branch_locations self w other_services;
          w2 = driver_add_services w1 this_service other_services;
          services = other_services;
          w3 = w2\<lparr>list_objs := (list_objs w2)(services := list_objs w2 services @ [this_service])\<rparr>;
          use_source = use_source_or_default use_source;
          no_origin = no_origin_or_default no_origin;
          w4 = (if truthy (openstack self)
                then configure_where (\<lambda>n. n \<notin> set (use_source @ no_origin))
                       [(''openstack-origin'', the (openstack self))] (list_objs w3 services) w3
                else w3);
          w5 = (if truthy (source self)
                then configure_where (\<lambda>n. n \<in> set use_source \<and> n \<notin> set no_origin)
                       [(''source'', the (source self))] (list_objs w4 services) w4
                else w4)
      in w5)"

text \<open>
  Whether the calls \<^verbatim>\<open>tr\<close> hand the service called \<^verbatim>\<open>n\<close> a configuration that
  sets the key \<^verbatim>\<open>k\<close> to the value \<^verbatim>\<open>v\<close>.
\<close>

definition receives :: "call list \<Rightarrow> string \<Rightarrow> string \<Rightarrow> string \<Rightarrow> bool" where
  "receives tr n k v =
     list_ex (\<lambda>c. case c of Configure m config \<Rightarrow> m = n \<and> (k, v) \<in> set config | _ \<Rightarrow> False) tr"

text \<open>The calls made between the state \<^verbatim>\<open>w\<close> and the later state \<^verbatim>\<open>w'\<close>.\<close>

definition new_calls :: "world \<Rightarrow> world \<Rightarrow> call list" where
  "new_calls w w' = drop (length (calls w)) (calls w')"

subsection \<open>Waiting for the extended status\<close>

text \<open>
  Truthiness of \<^verbatim>\<open>message\<close>: a compiled pattern is always true, a string or a set
  when it is not empty.
\<close>

fun truthy_matcher :: "matcher option \<Rightarrow> bool" where
  "truthy_matcher None = False"
| "truthy_matcher (Some (Pattern p i)) = True"
| "truthy_matcher (Some (Literal s)) = (s \<noteq> [])"
| "truthy_matcher (Some (Literals ss)) = (ss \<noteq> [])"

text \<open>
  \<^verbatim>\<open>_auto_wait_for_status\<close>. \<^verbatim>\<open>list(set(all_services) - set(exclude_services))\<close>
  comes in no particular order; only the dictionary built from it is passed on, which does
  not depend on the order.
\<close>

definition auto_wait_for_status ::
  "world \<Rightarrow> matcher option \<Rightarrow> string list option \<Rightarrow> string list option \<Rightarrow> int
   \<Rightarrow> (error + unit) \<times> world" where
  "auto_wait_for_status w message exclude_services include_only timeout =
     (let all_services = d_services w
      in if truthy_list exclude_services \<and> truthy_list include_only
         then (Inl ValueError, w)
         else
           let message = (if truthy_matcher message then the message
                          else Pattern ''.*ready.*'' True);
               exclude_services = (if truthy_list exclude_services then the exclude_services
                                   else []);
               services = (if truthy_list include_only then the include_only
                           else filter (\<lambda>s. s \<notin> set exclude_services) (remdups all_services));
               service_messages = map_of (map (\<lambda>service. (service, message)) services)
           in sentry_wait_for_messages w service_messages timeout)"

subsection \<open>A sample deployment\<close>

text \<open>
  The objects of the docstring of \<^verbatim>\<open>_add_services\<close>, used to evaluate the operations:
  the list at reference 0 holds \<^verbatim>\<open>mysql\<close> (1), \<^verbatim>\<open>nova-compute\<close> with a location
  of its own (2) and \<^verbatim>\<open>keystone\<close> (3); the service under test is
  \<^verbatim>\<open>openvswitch-odl\<close> (4).
\<close>

definition ex_self :: deployment where
  "ex_self = \<lparr>series = Some ''xenial'', openstack = Some ''cloud:xenial-newton'',
              source = Some ''cloud:xenial-updates/newton'', stable = False\<rparr>"

definition ex_world :: world where
  "ex_world =
     \<lparr>dicts = (\<lambda>_. \<lparr>name = ''keystone'', units = None, constraints = None, location = None\<rparr>)
        (1 := \<lparr>name = ''mysql'', units = None, constraints = Some [(''mem'', ''2G'')],
               location = None\<rparr>,
         2 := \<lparr>name = ''nova-compute'', units = Some 2, constraints = Some [(''mem'', ''4G'')],
               location = Some ''cs:~bob/xenial/nova-compute''\<rparr>,
         4 := \<lparr>name = ''openvswitch-odl'', units = None, constraints = Some [(''mem'', ''8G'')],
               location = None\<rparr>),
      list_objs = (\<lambda>_. [])(0 := [1, 2, 3]),
      d_services = [''mysql'', ''nova-compute'', ''keystone'', ''openvswitch-odl''],
      sentry_times_out = False,
      calls = []\<rparr>"

section \<open>Properties of the release tables\<close>

lemmas ordinal_defs =
  precise_essex_def precise_folsom_def precise_grizzly_def precise_havana_def
  precise_icehouse_def trusty_icehouse_def trusty_juno_def utopic_juno_def
  trusty_kilo_def vivid_kilo_def trusty_liberty_def wily_liberty_def
  trusty_mitaka_def xenial_mitaka_def xenial_newton_def yakkety_newton_def

subsection \<open>String splitting\<close>

lemma split_from_absent:
  "sep \<noteq> [] \<Longrightarrow> last sep \<notin> set x \<Longrightarrow> split_from sep acc x = [rev acc @ x]"
proof (induction x arbitrary: acc)
  case Nil
  then show ?case by simp
next
  case (Cons c cs)
  have "take (length sep) (c # cs) \<noteq> sep"
  proof
    assume eq: "take (length sep) (c # cs) = sep"
    have "last sep \<in> set sep" using Cons.prems(1) by simp
    then have "last sep \<in> set (take (length sep) (c # cs))" using eq by simp
    then have "last sep \<in> set (c # cs)" by (rule in_set_takeD)
    then show False using Cons.prems(2) by simp
  qed
  moreover have "split_from sep (c # acc) cs = [rev (c # acc) @ cs]"
    using Cons.IH [of "c # acc"] Cons.prems by simp
  ultimately show ?case by simp
qed

lemma split_from_char:
  "ch \<notin> set x \<Longrightarrow> split_from [ch] acc (x @ ch # y) = (rev acc @ x) # split_from [ch] [] y"
  by (induction x arbitrary: acc) auto

lemma split_from_prefix:
  "sep \<noteq> [] \<Longrightarrow> split_from sep [] (sep @ y) = [] # split_from sep [] y"
  by (cases sep) simp_all

subsection \<open>The codename resolver\<close>

lemma release_string_wellformed:
  assumes "CHR '':'' \<notin> set s" "CHR '':'' \<notin> set c" "CHR ''/'' \<notin> set c" "CHR ''-'' \<notin> set c"
  shows "get_openstack_release_string
           (self\<lparr>series := Some s, openstack := Some (''cloud:'' @ s @ ''-'' @ c)\<rparr>) = Inr c"
proof -
  let ?o = "''cloud:'' @ s @ ''-'' @ c"
  have a: "CHR '':'' \<notin> set (s @ ''-'' @ c)" using assms by simp
  have "split_from '':'' [] ?o = ''cloud'' # split_from '':'' [] (s @ ''-'' @ c)"
    using split_from_char [of "CHR '':''" "''cloud''" "[]" "s @ ''-'' @ c"] by simp
  also have "split_from '':'' [] (s @ ''-'' @ c) = [s @ ''-'' @ c]"
    using split_from_absent [of "'':''" "s @ ''-'' @ c" "[]"] a by simp
  finally have p1: "py_split ?o '':'' = Inr [''cloud'', s @ ''-'' @ c]"
    by (simp add: py_split_def)
  have "split_from (s @ ''-'') [] ((s @ ''-'') @ c) = [] # split_from (s @ ''-'') [] c"
    by (rule split_from_prefix) simp
  moreover have "split_from (s @ ''-'') [] c = [c]"
    using split_from_absent [of "s @ ''-''" c "[]"] assms(4) by simp
  ultimately have p2: "py_split (s @ ''-'' @ c) (s @ ''-'') = Inr [[], c]"
    by (simp add: py_split_def)
  have p3: "py_split c ''/'' = Inr [c]"
    using split_from_absent [of "''/''" c "[]"] assms(3) by (simp add: py_split_def)
  show ?thesis
    using p1 p2 p3 by (simp add: get_openstack_release_string_def py_index_def)
qed

lemma py_split_not_KeyError: "py_split s sep \<noteq> Inl KeyError"
  by (simp add: py_split_def)

lemma py_index_not_KeyError: "py_index xs i \<noteq> Inl KeyError"
  by (simp add: py_index_def)

lemma bind_err_not_KeyError:
  "m \<noteq> Inl KeyError \<Longrightarrow> (\<And>x. f x \<noteq> Inl KeyError) \<Longrightarrow> bind_err m f \<noteq> Inl KeyError"
  by (cases m) auto

lemma release_string_origin_no_KeyError:
  "truthy (openstack self) \<Longrightarrow> get_openstack_release_string self \<noteq> Inl KeyError"
  unfolding get_openstack_release_string_def
  by (simp add: bind_err_not_KeyError py_split_not_KeyError py_index_not_KeyError)

lemma codename_of_series_KeyError:
  "codename_of_series ser = Inl KeyError \<longleftrightarrow> ser \<notin> Some ` fst ` set codenames"
proof (cases ser)
  case None
  then show ?thesis by (auto simp: codename_of_series_def)
next
  case (Some s)
  have "codename_of_series (Some s) = Inl KeyError \<longleftrightarrow> map_of codenames s = None"
    by (simp add: codename_of_series_def split: option.splits)
  also have "\<dots> \<longleftrightarrow> s \<notin> fst ` set codenames"
    by (rule map_of_eq_None_iff)
  also have "\<dots> \<longleftrightarrow> Some s \<notin> Some ` fst ` set codenames"
    by auto
  finally show ?thesis using Some by simp
qed

lemma release_unmapped:
  "map_of releases (series self, openstack self) = None \<Longrightarrow>
   get_openstack_release self = Inl KeyError"
  by (simp add: get_openstack_release_def)

text \<open>
  C3, as the specification states it, fails: the pair
  \<^verbatim>\<open>('precise', 'cloud:precise-newton')\<close> has no entry in the table of
  \<^verbatim>\<open>_get_openstack_release\<close>, which raises \<^verbatim>\<open>KeyError\<close>, yet
  \<^verbatim>\<open>_get_openstack_release_string\<close> returns the codename \<^verbatim>\<open>'newton'\<close> for it.
\<close>

theorem codename_resolver_unmapped_counterexample:
  "map_of releases (Some ''precise'', Some ''cloud:precise-newton'') = None
   \<and> get_openstack_release
        \<lparr>series = Some ''precise'', openstack = Some ''cloud:precise-newton'',
         source = None, stable = True\<rparr> = Inl KeyError
   \<and> get_openstack_release_string
        \<lparr>series = Some ''precise'', openstack = Some ''cloud:precise-newton'',
         source = None, stable = True\<rparr> = Inr ''newton''"
  by (simp add: releases_def get_openstack_release_def get_openstack_release_string_def
      py_split_def py_index_def)

text \<open>
  C3, amended: for every (series, origin) pair with no entry in the release table the
  release-ordinal resolver raises \<^verbatim>\<open>KeyError\<close>. The codename resolver does not consult
  that table. Without a non-empty origin it raises \<^verbatim>\<open>KeyError\<close> exactly when the series
  is not one of the ten keys of its own series-to-codename table. With a non-empty origin it
  never raises \<^verbatim>\<open>KeyError\<close>, and for an origin \<^verbatim>\<open>cloud:<series>-<codename>\<close> (no colon
  in the series, no colon, slash or hyphen in the codename) it returns the codename, whether
  or not the pair is in the release table.
\<close>

theorem release_resolvers_unmapped:
  "(map_of releases (series self, openstack self) = None \<longrightarrow>
      get_openstack_release self = Inl KeyError)
   \<and> (\<not> truthy (openstack self) \<longrightarrow>
      (get_openstack_release_string self = Inl KeyError
         \<longleftrightarrow> series self \<notin> Some ` fst ` set codenames))
   \<and> (truthy (openstack self) \<longrightarrow> get_openstack_release_string self \<noteq> Inl KeyError)
   \<and> (CHR '':'' \<notin> set s \<and> CHR '':'' \<notin> set c \<and> CHR ''/'' \<notin> set c \<and> CHR ''-'' \<notin> set c \<longrightarrow>
      get_openstack_release_string
        (self\<lparr>series := Some s, openstack := Some (''cloud:'' @ s @ ''-'' @ c)\<rparr>) = Inr c)"
proof (intro conjI impI)
  assume "map_of releases (series self, openstack self) = None"
  then show "get_openstack_release self = Inl KeyError" by (rule release_unmapped)
next
  assume "\<not> truthy (openstack self)"
  then have "get_openstack_release_string self = codename_of_series (series self)"
    by (simp add: get_openstack_release_string_def)
  then show "get_openstack_release_string self = Inl KeyError
      \<longleftrightarrow> series self \<notin> Some ` fst ` set codenames"
    by (simp add: codename_of_series_KeyError)
next
  assume "truthy (openstack self)"
  then show "get_openstack_release_string self \<noteq> Inl KeyError"
    by (rule release_string_origin_no_KeyError)
next
  assume "CHR '':'' \<notin> set s \<and> CHR '':'' \<notin> set c \<and> CHR ''/'' \<notin> set c \<and> CHR ''-'' \<notin> set c"
  then show "get_openstack_release_string
      (self\<lparr>series := Some s, openstack := Some (''cloud:'' @ s @ ''-'' @ c)\<rparr>) = Inr c"
    using release_string_wellformed [of s c self] by blast
qed

theorem release_resolvers_unmapped_witness:
  "map_of releases (Some ''precise'', Some ''cloud:precise-newton'') = None
   \<and> get_openstack_release
        \<lparr>series = Some ''precise'', openstack = Some ''cloud:precise-newton'',
         source = None, stable = True\<rparr> = Inl KeyError
   \<and> truthy (Some ''cloud:precise-newton'')
   \<and> get_openstack_release_string
        \<lparr>series = Some ''precise'', openstack = Some ''cloud:precise-newton'',
         source = None, stable = True\<rparr> \<noteq> Inl KeyError
   \<and> \<not> truthy None
   \<and> Some ''zesty'' \<notin> Some ` fst ` set codenames
   \<and> get_openstack_release_string
        \<lparr>series = Some ''zesty'', openstack = None, source = None, stable = True\<rparr>
       = Inl KeyError
   \<and> CHR '':'' \<notin> set ''zesty'' \<and> CHR '':'' \<notin> set ''pike''
   \<and> CHR ''/'' \<notin> set ''pike'' \<and> CHR ''-'' \<notin> set ''pike''
   \<and> get_openstack_release_string
        \<lparr>series = Some ''zesty'', openstack = Some ''cloud:zesty-pike'',
         source = None, stable = True\<rparr> = Inr ''pike''"
proof -
  let ?a = "\<lparr>series = Some ''precise'', openstack = Some ''cloud:precise-newton'',
             source = None, stable = True\<rparr>"
  let ?b = "\<lparr>series = Some ''zesty'', openstack = None, source = None, stable = True\<rparr>"
  have h1: "map_of releases (series ?a, openstack ?a) = None"
    by (simp add: releases_def)
  have h2: "truthy (openstack ?a)" by simp
  have h3: "\<not> truthy (openstack ?b)" by simp
  have h3': "series ?b \<notin> Some ` fst ` set codenames"
    by (auto simp: codenames_def)
  have h4: "CHR '':'' \<notin> set ''zesty'' \<and> CHR '':'' \<notin> set ''pike''
      \<and> CHR ''/'' \<notin> set ''pike'' \<and> CHR ''-'' \<notin> set ''pike''"
    by simp
  note a = release_resolvers_unmapped [of ?a "''zesty''" "''pike''"]
  note b = release_resolvers_unmapped [of ?b "''zesty''" "''pike''"]
  have c1: "get_openstack_release ?a = Inl KeyError" using a h1 by blast
  have c2: "get_openstack_release_string ?a \<noteq> Inl KeyError" using a h2 by blast
  have c3: "get_openstack_release_string ?b = Inl KeyError" using b h3 h3' by blast
  have c4: "get_openstack_release_string
      (?a\<lparr>series := Some ''zesty'', openstack := Some (''cloud:'' @ ''zesty'' @ ''-'' @ ''pike'')\<rparr>)
      = Inr ''pike''"
    using a h4 by blast
  show ?thesis using h1 h2 h3 h3' h4 c1 c2 c3 c4 by simp
qed

subsection \<open>The release ordinals\<close>

lemma release_mapped:
  "get_openstack_release self = Inr v \<Longrightarrow> ((series self, openstack self), v) \<in> set releases"
  by (auto simp: get_openstack_release_def split: option.splits dest: map_of_SomeD)

lemma release_in_order:
  "get_openstack_release self = Inr v \<Longrightarrow> v \<in> set release_order"
  by (drule release_mapped) (auto simp: releases_def release_order_def)

lemma release_string_cong:
  "series a = series b \<Longrightarrow> openstack a = openstack b \<Longrightarrow>
   get_openstack_release_string a = get_openstack_release_string b"
  by (simp add: get_openstack_release_string_def)

lemma release_table_codenames:
  "map (\<lambda>((s, os), v).
         (get_openstack_release_string \<lparr>series = s, openstack = os, source = None, stable = True\<rparr>, v))
     releases =
   [(Inr ''essex'', 0), (Inr ''folsom'', 1), (Inr ''grizzly'', 2), (Inr ''havana'', 3),
    (Inr ''icehouse'', 4), (Inr ''icehouse'', 5), (Inr ''juno'', 6), (Inr ''kilo'', 8),
    (Inr ''liberty'', 10), (Inr ''mitaka'', 12), (Inr ''juno'', 7), (Inr ''kilo'', 9),
    (Inr ''liberty'', 11), (Inr ''mitaka'', 13), (Inr ''newton'', 14), (Inr ''newton'', 15)]"
  by code_simp

lemma chronology_index:
  "index_of ''essex'' chronology = 0" "index_of ''folsom'' chronology = 1"
  "index_of ''grizzly'' chronology = 2" "index_of ''havana'' chronology = 3"
  "index_of ''icehouse'' chronology = 4" "index_of ''juno'' chronology = 5"
  "index_of ''kilo'' chronology = 6" "index_of ''liberty'' chronology = 7"
  "index_of ''mitaka'' chronology = 8" "index_of ''newton'' chronology = 9"
  by (simp_all add: chronology_def codenames_def)

text \<open>
  Two consecutive ordinals share a codename from Icehouse on: the position of the codename
  in the chronology is a monotone function of the ordinal.
\<close>

lemma ordinal_codename:
  assumes "get_openstack_release self = Inr v" "get_openstack_release_string self = Inr c"
  shows "int (index_of c chronology) = (if v \<le> 4 then v else (v + 4) div 2)"
proof -
  let ?f = "\<lambda>((s, os), v).
    (get_openstack_release_string \<lparr>series = s, openstack = os, source = None, stable = True\<rparr>, v)"
  have "((series self, openstack self), v) \<in> set releases"
    using assms(1) by (rule release_mapped)
  then have "?f ((series self, openstack self), v) \<in> set (map ?f releases)"
    unfolding set_map by (rule imageI)
  moreover have "?f ((series self, openstack self), v) = (Inr c, v)"
    using assms(2) release_string_cong [of self
        "\<lparr>series = series self, openstack = openstack self, source = None, stable = True\<rparr>"]
    by simp
  ultimately have "(Inr c, v) \<in> set (map ?f releases)" by simp
  then show ?thesis
    unfolding release_table_codenames by (auto simp: chronology_index)
qed

lemma ordinal_chronological:
  assumes "get_openstack_release s1 = Inr v1" "get_openstack_release_string s1 = Inr c1"
    "get_openstack_release s2 = Inr v2" "get_openstack_release_string s2 = Inr c2"
    "index_of c1 chronology < index_of c2 chronology"
  shows "v1 < v2"
proof -
  have "int (index_of c1 chronology) < int (index_of c2 chronology)"
    using assms(5) by simp
  then have "(if v1 \<le> 4 then v1 else (v1 + 4) div 2) < (if v2 \<le> 4 then v2 else (v2 + 4) div 2)"
    using ordinal_codename [OF assms(1,2)] ordinal_codename [OF assms(3,4)] by simp
  then show ?thesis by (simp split: if_splits)
qed

lemma release_order_range: "release_order = map int [0..<16]"
  by (simp add: release_order_def ordinal_defs upt_rec)

lemma release_order_sorted: "sorted_wrt (<) release_order"
  by (simp add: release_order_def ordinal_defs)

lemma releases_image: "snd ` set releases = set release_order"
  by (simp add: releases_def release_order_def) blast

lemma release_examples:
  "get_openstack_release (self\<lparr>series := Some ''trusty'', openstack := None\<rparr>)
     = Inr trusty_icehouse"
  "get_openstack_release_string (self\<lparr>series := Some ''trusty'', openstack := None\<rparr>)
     = Inr ''icehouse''"
  "get_openstack_release
     (self\<lparr>series := Some ''xenial'', openstack := Some ''cloud:xenial-newton''\<rparr>)
     = Inr xenial_newton"
  "get_openstack_release_string
     (self\<lparr>series := Some ''xenial'', openstack := Some ''cloud:xenial-newton''\<rparr>)
     = Inr ''newton''"
  "get_openstack_release
     (self\<lparr>series := Some ''precise'', openstack := Some ''cloud:precise-newton''\<rparr>)
     = Inl KeyError"
  by (simp_all add: get_openstack_release_def releases_def get_openstack_release_string_def
      codename_of_series_def codenames_def py_split_def py_index_def)

text \<open>
  C4: the release-ordinal resolver returns one of the sixteen values \<open>0, \<dots>, 15\<close>, which
  the source binds in strictly increasing order to the sixteen (series, release) names
  listed from Essex to Newton, and every one of them is the ordinal of some table entry. The
  ordinals follow the chronology of the releases: of two mapped pairs, the one whose
  codename comes later in the chronology has the strictly larger ordinal.
  \<^verbatim>\<open>('trusty', None)\<close> resolves to the Icehouse ordinal \<^verbatim>\<open>trusty_icehouse\<close>,
  \<^verbatim>\<open>('xenial', 'cloud:xenial-newton')\<close> to the Newton ordinal \<^verbatim>\<open>xenial_newton\<close>, and
  the unmapped pair \<^verbatim>\<open>('precise', 'cloud:precise-newton')\<close> raises \<^verbatim>\<open>KeyError\<close>.
\<close>

theorem release_ordinals:
  "length release_order = 16
   \<and> release_order = map int [0..<16]
   \<and> sorted_wrt (<) release_order
   \<and> snd ` set releases = set release_order
   \<and> (\<forall>s v. get_openstack_release s = Inr v \<longrightarrow> v \<in> set release_order)
   \<and> (\<forall>s1 s2 v1 v2 c1 c2.
        get_openstack_release s1 = Inr v1 \<and> get_openstack_release_string s1 = Inr c1 \<and>
        get_openstack_release s2 = Inr v2 \<and> get_openstack_release_string s2 = Inr c2 \<and>
        index_of c1 chronology < index_of c2 chronology \<longrightarrow> v1 < v2)
   \<and> get_openstack_release (self\<lparr>series := Some ''trusty'', openstack := None\<rparr>)
       = Inr trusty_icehouse
   \<and> get_openstack_release_string (self\<lparr>series := Some ''trusty'', openstack := None\<rparr>)
       = Inr ''icehouse''
   \<and> get_openstack_release
       (self\<lparr>series := Some ''xenial'', openstack := Some ''cloud:xenial-newton''\<rparr>)
       = Inr xenial_newton
   \<and> get_openstack_release_string
       (self\<lparr>series := Some ''xenial'', openstack := Some ''cloud:xenial-newton''\<rparr>)
       = Inr ''newton''
   \<and> get_openstack_release
       (self\<lparr>series := Some ''precise'', openstack := Some ''cloud:precise-newton''\<rparr>)
       = Inl KeyError"
proof -
  have "length release_order = 16" by (simp add: release_order_def)
  moreover have "\<forall>s v. get_openstack_release s = Inr v \<longrightarrow> v \<in> set release_order"
    using release_in_order by blast
  moreover have "\<forall>s1 s2 v1 v2 c1 c2.
        get_openstack_release s1 = Inr v1 \<and> get_openstack_release_string s1 = Inr c1 \<and>
        get_openstack_release s2 = Inr v2 \<and> get_openstack_release_string s2 = Inr c2 \<and>
        index_of c1 chronology < index_of c2 chronology \<longrightarrow> v1 < v2"
    using ordinal_chronological by blast
  ultimately show ?thesis
    using release_order_range release_order_sorted releases_image release_examples [of self]
    by blast
qed

theorem release_ordinals_witness:
  "get_openstack_release
     \<lparr>series = Some ''trusty'', openstack = Some ''cloud:trusty-juno'',
      source = None, stable = True\<rparr> = Inr 6
   \<and> get_openstack_release_string
     \<lparr>series = Some ''trusty'', openstack = Some ''cloud:trusty-juno'',
      source = None, stable = True\<rparr> = Inr ''juno''
   \<and> get_openstack_release
     \<lparr>series = Some ''vivid'', openstack = None, source = None, stable = True\<rparr> = Inr 9
   \<and> get_openstack_release_string
     \<lparr>series = Some ''vivid'', openstack = None, source = None, stable = True\<rparr> = Inr ''kilo''
   \<and> index_of ''juno'' chronology < index_of ''kilo'' chronology
   \<and> (6::int) < 9
   \<and> (6::int) \<in> set release_order"
proof -
  let ?a = "\<lparr>series = Some ''trusty'', openstack = Some ''cloud:trusty-juno'',
             source = None, stable = True\<rparr>"
  let ?b = "\<lparr>series = Some ''vivid'', openstack = None, source = None, stable = True\<rparr>"
  have a1: "get_openstack_release ?a = Inr 6"
    by (simp add: get_openstack_release_def releases_def ordinal_defs)
  have a2: "get_openstack_release_string ?a = Inr ''juno''"
    by (simp add: get_openstack_release_string_def py_split_def py_index_def)
  have b1: "get_openstack_release ?b = Inr 9"
    by (simp add: get_openstack_release_def releases_def ordinal_defs)
  have b2: "get_openstack_release_string ?b = Inr ''kilo''"
    by (simp add: get_openstack_release_string_def codename_of_series_def codenames_def)
  have i: "index_of ''juno'' chronology < index_of ''kilo'' chronology"
    by (simp add: chronology_index)
  note t = release_ordinals [of ?a]
  have c1: "(6::int) < 9" using t a1 a2 b1 b2 i by blast
  have c2: "(6::int) \<in> set release_order" using t a1 by blast
  show ?thesis using a1 a2 b1 b2 i c1 c2 by blast
qed

subsection \<open>Expected ceph pools\<close>

text \<open>
  C5: when the release ordinal resolves to \<open>rel\<close>, the pool deriver returns the base list
  \<^verbatim>\<open>[rbd, cinder, glance]\<close> if \<open>rel\<close> is at or after \<^verbatim>\<open>trusty_kilo\<close> and
  \<^verbatim>\<open>[data, metadata, rbd, cinder, glance]\<close> otherwise, followed, when \<^verbatim>\<open>radosgw\<close> is
  true, by the five gateway pools, in this order and with nothing sorted or removed.
\<close>

theorem ceph_expected_pools:
  assumes "get_openstack_release self = Inr rel"
  shows "get_ceph_expected_pools self radosgw =
    Inr ((if trusty_kilo \<le> rel
          then [''rbd'', ''cinder'', ''glance'']
          else [''data'', ''metadata'', ''rbd'', ''cinder'', ''glance''])
         @ (if radosgw
            then [''.rgw.root'', ''.rgw.control'', ''.rgw'', ''.rgw.gc'', ''.users.uid'']
            else []))"
  using assms by (simp add: get_ceph_expected_pools_def)

theorem ceph_expected_pools_witness:
  "get_openstack_release
     \<lparr>series = Some ''trusty'', openstack = Some ''cloud:trusty-juno'',
      source = None, stable = True\<rparr> = Inr trusty_juno
   \<and> get_ceph_expected_pools
     \<lparr>series = Some ''trusty'', openstack = Some ''cloud:trusty-juno'',
      source = None, stable = True\<rparr> False
     = Inr [''data'', ''metadata'', ''rbd'', ''cinder'', ''glance'']
   \<and> get_openstack_release
     \<lparr>series = Some ''trusty'', openstack = Some ''cloud:trusty-kilo'',
      source = None, stable = True\<rparr> = Inr trusty_kilo
   \<and> get_ceph_expected_pools
     \<lparr>series = Some ''trusty'', openstack = Some ''cloud:trusty-kilo'',
      source = None, stable = True\<rparr> True
     = Inr [''rbd'', ''cinder'', ''glance'',
            ''.rgw.root'', ''.rgw.control'', ''.rgw'', ''.rgw.gc'', ''.users.uid'']"
proof -
  let ?j = "\<lparr>series = Some ''trusty'', openstack = Some ''cloud:trusty-juno'',
             source = None, stable = True\<rparr>"
  let ?k = "\<lparr>series = Some ''trusty'', openstack = Some ''cloud:trusty-kilo'',
             source = None, stable = True\<rparr>"
  have j: "get_openstack_release ?j = Inr trusty_juno"
    by (simp add: get_openstack_release_def releases_def)
  have k: "get_openstack_release ?k = Inr trusty_kilo"
    by (simp add: get_openstack_release_def releases_def)
  have cj: "get_ceph_expected_pools ?j False
      = Inr [''data'', ''metadata'', ''rbd'', ''cinder'', ''glance'']"
    using ceph_expected_pools [OF j, of False] by (simp add: ordinal_defs)
  have ck: "get_ceph_expected_pools ?k True
      = Inr [''rbd'', ''cinder'', ''glance'',
             ''.rgw.root'', ''.rgw.control'', ''.rgw'', ''.rgw.gc'', ''.users.uid'']"
    using ceph_expected_pools [OF k, of True] by (simp add: ordinal_defs)
  show ?thesis using j k cj ck by blast
qed

section \<open>Properties of the service operations\<close>

subsection \<open>Branch locations\<close>

lemma base_charms_nonempty: "map_of base_charms nm = Some supported \<Longrightarrow> supported \<noteq> []"
  by (auto simp: base_charms_def split: if_splits)

lemma branch_location_nonempty: "branch_location self nm \<noteq> []"
  by (simp add: branch_location_def Let_def split: option.splits)

lemma resolve_each_apply:
  "resolve_each self rs h r =
     (if r \<in> set rs \<and> \<not> truthy (location (h r))
      then (h r)\<lparr>location := Some (branch_location self (name (h r)))\<rparr>
      else h r)"
proof (induction rs arbitrary: h)
  case Nil
  then show ?case by simp
next
  case (Cons a rs)
  show ?case
    by (auto simp: Cons.IH branch_location_nonempty)
qed

lemma resolve_each_name: "name (resolve_each self rs h r) = name (h r)"
  by (simp add: resolve_each_apply)

lemma determine_fst:
  "fst (determine_branch_locations self w l) =
     w\<lparr>dicts := resolve_each self (list_objs w l) (dicts w)\<rparr>"
  by (simp add: determine_branch_locations_def)

lemma resolved_truthy:
  "r \<in> set (list_objs w l) \<Longrightarrow> truthy (location (dicts (fst (determine_branch_locations self w l)) r))"
  by (simp add: determine_fst resolve_each_apply branch_location_nonempty)

text \<open>
  C1: a service of the other-services list whose location is not set (missing, \<^verbatim>\<open>None\<close>
  or empty) is given, by \<^verbatim>\<open>_determine_branch_locations\<close>: for a name in \<^verbatim>\<open>base_charms\<close>,
  \<^verbatim>\<open>cs:<series>/<name>\<close> with the requested series when the charm supports it and with
  the last series of the charm's list otherwise; for any other name,
  \<^verbatim>\<open>cs:<series>/<name>\<close> when \<^verbatim>\<open>stable\<close> holds and
  \<^verbatim>\<open>cs:~openstack-charmers-next/<series>/<name>\<close> when it does not. The series is
  printed as \<^verbatim>\<open>format\<close> prints it.
\<close>

theorem branch_locations_assigned:
  assumes "r \<in> set (list_objs w other_services)" "\<not> truthy (location (dicts w r))"
  shows "location (dicts (fst (determine_branch_locations self w other_services)) r) =
    Some (case map_of base_charms (name (dicts w r)) of
            Some supported \<Rightarrow>
              ''cs:'' @ (if series self \<in> Some ` set supported then py_str (series self)
                         else last supported) @ ''/'' @ name (dicts w r)
          | None \<Rightarrow>
              if stable self then ''cs:'' @ py_str (series self) @ ''/'' @ name (dicts w r)
              else ''cs:~openstack-charmers-next/'' @ py_str (series self) @ ''/''
                   @ name (dicts w r))"
  using assms
  by (simp add: determine_fst resolve_each_apply branch_location_def Let_def split: option.splits)

theorem branch_locations_assigned_witness:
  "1 \<in> set (list_objs ex_world 0) \<and> \<not> truthy (location (dicts ex_world 1))
   \<and> location (dicts (fst (determine_branch_locations ex_self ex_world 0)) 1)
       = Some ''cs:trusty/mysql''
   \<and> 3 \<in> set (list_objs ex_world 0) \<and> \<not> truthy (location (dicts ex_world 3))
   \<and> location (dicts (fst (determine_branch_locations ex_self ex_world 0)) 3)
       = Some ''cs:~openstack-charmers-next/xenial/keystone''"
proof -
  have a1: "1 \<in> set (list_objs ex_world 0)" by (simp add: ex_world_def)
  have a2: "\<not> truthy (location (dicts ex_world 1))" by (simp add: ex_world_def)
  have b1: "3 \<in> set (list_objs ex_world 0)" by (simp add: ex_world_def)
  have b2: "\<not> truthy (location (dicts ex_world 3))" by (simp add: ex_world_def)
  have a3: "location (dicts (fst (determine_branch_locations ex_self ex_world 0)) 1)
       = Some ''cs:trusty/mysql''"
    using branch_locations_assigned [OF a1 a2, of ex_self]
    by (simp add: ex_world_def ex_self_def base_charms_def)
  have b3: "location (dicts (fst (determine_branch_locations ex_self ex_world 0)) 3)
       = Some ''cs:~openstack-charmers-next/xenial/keystone''"
    using branch_locations_assigned [OF b1 b2, of ex_self]
    by (simp add: ex_world_def ex_self_def base_charms_def)
  show ?thesis using a1 a2 a3 b1 b2 b3 by blast
qed

text \<open>
  C7: a service of the other-services list whose location is already set to a non-empty
  string is left as it is by \<^verbatim>\<open>_determine_branch_locations\<close>, in all its fields.
\<close>

theorem preset_location_unchanged:
  assumes "r \<in> set (list_objs w other_services)" "truthy (location (dicts w r))"
  shows "dicts (fst (determine_branch_locations self w other_services)) r = dicts w r"
  using assms by (simp add: determine_fst resolve_each_apply)

theorem preset_location_unchanged_witness:
  "2 \<in> set (list_objs ex_world 0) \<and> truthy (location (dicts ex_world 2))
   \<and> dicts (fst (determine_branch_locations ex_self ex_world 0)) 2 =
       \<lparr>name = ''nova-compute'', units = Some 2, constraints = Some [(''mem'', ''4G'')],
        location = Some ''cs:~bob/xenial/nova-compute''\<rparr>"
proof -
  have a1: "2 \<in> set (list_objs ex_world 0)" by (simp add: ex_world_def)
  have a2: "truthy (location (dicts ex_world 2))" by (simp add: ex_world_def)
  have a3: "dicts (fst (determine_branch_locations ex_self ex_world 0)) 2 =
       \<lparr>name = ''nova-compute'', units = Some 2, constraints = Some [(''mem'', ''4G'')],
        location = Some ''cs:~bob/xenial/nova-compute''\<rparr>"
    using preset_location_unchanged [OF a1 a2, of ex_self] by (simp add: ex_world_def)
  show ?thesis using a1 a2 a3 by blast
qed

subsection \<open>The calls made by the service-adding operation\<close>

lemma configure_where_frame:
  "dicts (configure_where p config rs w) = dicts w"
  "list_objs (configure_where p config rs w) = list_objs w"
  "d_services (configure_where p config rs w) = d_services w"
  "sentry_times_out (configure_where p config rs w) = sentry_times_out w"
  by (induction rs arbitrary: w) (simp_all add: driver_configure_def)

lemma configure_where_calls:
  "calls (configure_where p config rs w) =
     calls w @ map (\<lambda>r. Configure (name (dicts w r)) config)
                   (filter (\<lambda>r. p (name (dicts w r))) rs)"
proof (induction rs arbitrary: w)
  case Nil
  then show ?case by simp
next
  case (Cons a rs)
  show ?case by (simp add: Cons.IH driver_configure_def)
qed

lemma add_services_calls:
  "new_calls w (add_services self w t l us no) =
     AddServices (resolve_each self (list_objs w l) (dicts w) t)
          (map (resolve_each self (list_objs w l) (dicts w)) (list_objs w l))
     # (if truthy (openstack self)
        then map (\<lambda>r. Configure (name (dicts w r)) [(''openstack-origin'', the (openstack self))])
               (filter (\<lambda>r. name (dicts w r) \<notin> set (use_source_or_default us @ no_origin_or_default no))
                  (list_objs w l @ [t]))
        else [])
     @ (if truthy (source self)
        then map (\<lambda>r. Configure (name (dicts w r)) [(''source'', the (source self))])
               (filter (\<lambda>r. name (dicts w r) \<in> set (use_source_or_default us)
                           \<and> name (dicts w r) \<notin> set (no_origin_or_default no))
                  (list_objs w l @ [t]))
        else [])"
  by (simp add: new_calls_def add_services_def determine_branch_locations_def
      driver_add_services_def configure_where_calls configure_where_frame
      resolve_each_name Let_def)

lemma add_services_dicts:
  "dicts (add_services self w t l us no) = resolve_each self (list_objs w l) (dicts w)"
  by (simp add: add_services_def determine_branch_locations_def driver_add_services_def
      configure_where_frame Let_def)

lemma add_services_list:
  "list_objs (add_services self w t l us no) = (list_objs w)(l := list_objs w l @ [t])"
  by (simp add: add_services_def determine_branch_locations_def driver_add_services_def
      configure_where_frame Let_def)

lemma receives_Cons_AddServices: "receives (AddServices a b # tr) n k v = receives tr n k v"
  by (simp add: receives_def)

lemma receives_append: "receives (a @ b) n k v \<longleftrightarrow> receives a n k v \<or> receives b n k v"
  by (simp add: receives_def)

lemma receives_Nil: "\<not> receives [] n k v"
  by (simp add: receives_def)

lemma receives_configured:
  "receives (map (\<lambda>r. Configure (f r) [(k', v')]) (filter q rs)) n k v
     \<longleftrightarrow> k = k' \<and> v = v' \<and> (\<exists>r\<in>set rs. q r \<and> f r = n)"
  by (auto simp: receives_def list_ex_iff)

lemma receives_new_calls:
  "receives (new_calls w (add_services self w t l us no)) n k v \<longleftrightarrow>
     (truthy (openstack self) \<and> k = ''openstack-origin'' \<and> v = the (openstack self)
        \<and> n \<in> (\<lambda>r. name (dicts w r)) ` set (list_objs w l @ [t])
        \<and> n \<notin> set (use_source_or_default us) \<and> n \<notin> set (no_origin_or_default no))
     \<or> (truthy (source self) \<and> k = ''source'' \<and> v = the (source self)
        \<and> n \<in> (\<lambda>r. name (dicts w r)) ` set (list_objs w l @ [t])
        \<and> n \<in> set (use_source_or_default us) \<and> n \<notin> set (no_origin_or_default no))"
proof -
  let ?L = "list_objs w l @ [t]"
  let ?o = "if truthy (openstack self)
        then map (\<lambda>r. Configure (name (dicts w r)) [(''openstack-origin'', the (openstack self))])
               (filter (\<lambda>r. name (dicts w r) \<notin> set (use_source_or_default us @ no_origin_or_default no))
                  ?L)
        else []"
  let ?s = "if truthy (source self)
        then map (\<lambda>r. Configure (name (dicts w r)) [(''source'', the (source self))])
               (filter (\<lambda>r. name (dicts w r) \<in> set (use_source_or_default us)
                           \<and> name (dicts w r) \<notin> set (no_origin_or_default no))
                  ?L)
        else []"
  have o: "receives ?o n k v \<longleftrightarrow>
      truthy (openstack self) \<and> k = ''openstack-origin'' \<and> v = the (openstack self)
        \<and> n \<in> (\<lambda>r. name (dicts w r)) ` set ?L
        \<and> n \<notin> set (use_source_or_default us) \<and> n \<notin> set (no_origin_or_default no)"
    unfolding if_distrib [of "\<lambda>tr. receives tr n k v"] receives_configured
    by (auto simp: receives_Nil)
  have s: "receives ?s n k v \<longleftrightarrow>
      truthy (source self) \<and> k = ''source'' \<and> v = the (source self)
        \<and> n \<in> (\<lambda>r. name (dicts w r)) ` set ?L
        \<and> n \<in> set (use_source_or_default us) \<and> n \<notin> set (no_origin_or_default no)"
    unfolding if_distrib [of "\<lambda>tr. receives tr n k v"] receives_configured
    by (auto simp: receives_Nil)
  show ?thesis
    unfolding add_services_calls receives_Cons_AddServices receives_append o s ..
qed

lemma truthy_the: "truthy x \<and> v = the x \<longleftrightarrow> x = Some v \<and> v \<noteq> []"
  by (cases x) auto

lemma receives_origin:
  assumes "r \<in> set (list_objs w l @ [t])"
  shows "receives (new_calls w (add_services self w t l us no)) (name (dicts w r))
           ''openstack-origin'' v
     \<longleftrightarrow> openstack self = Some v \<and> v \<noteq> []
         \<and> name (dicts w r) \<notin> set (use_source_or_default us)
         \<and> name (dicts w r) \<notin> set (no_origin_or_default no)"
proof -
  have "name (dicts w r) \<in> (\<lambda>r. name (dicts w r)) ` set (list_objs w l @ [t])"
    using assms by (rule imageI)
  then show ?thesis
    unfolding receives_new_calls using truthy_the [of "openstack self" v] by auto
qed

lemma receives_source:
  assumes "r \<in> set (list_objs w l @ [t])"
  shows "receives (new_calls w (add_services self w t l us no)) (name (dicts w r))
           ''source'' v
     \<longleftrightarrow> source self = Some v \<and> v \<noteq> []
         \<and> name (dicts w r) \<in> set (use_source_or_default us)
         \<and> name (dicts w r) \<notin> set (no_origin_or_default no)"
proof -
  have "name (dicts w r) \<in> (\<lambda>r. name (dicts w r)) ` set (list_objs w l @ [t])"
    using assms by (rule imageI)
  then show ?thesis
    unfolding receives_new_calls using truthy_the [of "source self" v] by auto
qed

subsection \<open>The sample deployment, evaluated\<close>

lemma ex_resolved:
  "map (dicts (fst (determine_branch_locations ex_self ex_world 0))) [1, 2, 3, 4] =
     [\<lparr>name = ''mysql'', units = None, constraints = Some [(''mem'', ''2G'')],
       location = Some ''cs:trusty/mysql''\<rparr>,
      \<lparr>name = ''nova-compute'', units = Some 2, constraints = Some [(''mem'', ''4G'')],
       location = Some ''cs:~bob/xenial/nova-compute''\<rparr>,
      \<lparr>name = ''keystone'', units = None, constraints = None,
       location = Some ''cs:~openstack-charmers-next/xenial/keystone''\<rparr>,
      \<lparr>name = ''openvswitch-odl'', units = None, constraints = Some [(''mem'', ''8G'')],
       location = None\<rparr>]"
  by (simp add: determine_branch_locations_def ex_world_def ex_self_def branch_location_def
      base_charms_def)

lemma ex_trace:
  "new_calls ex_world (add_services ex_self ex_world 4 0 None None) =
     [AddServices
        \<lparr>name = ''openvswitch-odl'', units = None, constraints = Some [(''mem'', ''8G'')],
         location = None\<rparr>
        [\<lparr>name = ''mysql'', units = None, constraints = Some [(''mem'', ''2G'')],
          location = Some ''cs:trusty/mysql''\<rparr>,
         \<lparr>name = ''nova-compute'', units = Some 2, constraints = Some [(''mem'', ''4G'')],
          location = Some ''cs:~bob/xenial/nova-compute''\<rparr>,
         \<lparr>name = ''keystone'', units = None, constraints = None,
          location = Some ''cs:~openstack-charmers-next/xenial/keystone''\<rparr>],
      Configure ''nova-compute'' [(''openstack-origin'', ''cloud:xenial-newton'')],
      Configure ''keystone'' [(''openstack-origin'', ''cloud:xenial-newton'')],
      Configure ''mysql'' [(''source'', ''cloud:xenial-updates/newton'')]]"
proof -
  have l: "list_objs ex_world 0 = [1, 2, 3]" by (simp add: ex_world_def)
  have n: "map (\<lambda>r. name (dicts ex_world r)) [1, 2, 3, 4]
      = [''mysql'', ''nova-compute'', ''keystone'', ''openvswitch-odl'']"
    by (simp add: ex_world_def)
  have r: "map (resolve_each ex_self [1, 2, 3] (dicts ex_world)) [1, 2, 3, 4] =
      map (dicts (fst (determine_branch_locations ex_self ex_world 0))) [1, 2, 3, 4]"
    by (simp add: determine_branch_locations_def l)
  show ?thesis
    unfolding add_services_calls l
    using n r [unfolded ex_resolved]
    by (simp add: ex_self_def use_source_or_default_def no_origin_or_default_def
        default_use_source_def default_no_origin_def)
qed

subsection \<open>Configuration keys\<close>

text \<open>
  C2: let \<open>us\<close> and \<open>no\<close> be the two name lists in force (the caller's, or the built-in
  default when the caller's is missing or empty). For every service of the combined list,
  the other services followed by the service under test, the calls of \<^verbatim>\<open>_add_services\<close>
  configure \<^verbatim>\<open>openstack-origin\<close> for its name exactly when \<^verbatim>\<open>self.openstack\<close> is a
  non-empty string and the name is in neither list, with that string as the value; they
  configure \<^verbatim>\<open>source\<close> exactly when \<^verbatim>\<open>self.source\<close> is a non-empty string and the name
  is in \<open>us\<close> but not in \<open>no\<close>, with that string as the value. No name receives both keys,
  a name in both lists receives no \<^verbatim>\<open>source\<close>, and no other key is ever configured.
\<close>

theorem configuration_keys:
  fixes self w this_service other_services use_source no_origin r
  defines "tr \<equiv> new_calls w (add_services self w this_service other_services use_source no_origin)"
    and "n \<equiv> name (dicts w r)"
    and "us \<equiv> use_source_or_default use_source"
    and "no \<equiv> no_origin_or_default no_origin"
  assumes mem: "r \<in> set (list_objs w other_services @ [this_service])"
  shows "(receives tr n ''openstack-origin'' v \<longleftrightarrow>
            openstack self = Some v \<and> v \<noteq> [] \<and> n \<notin> set us \<and> n \<notin> set no)
       \<and> (receives tr n ''source'' v \<longleftrightarrow>
            source self = Some v \<and> v \<noteq> [] \<and> n \<in> set us \<and> n \<notin> set no)
       \<and> \<not> (receives tr n ''openstack-origin'' v \<and> receives tr n ''source'' v')
       \<and> (n \<in> set us \<and> n \<in> set no \<longrightarrow> \<not> receives tr n ''source'' v)
       \<and> (receives tr n k v \<longrightarrow> k = ''openstack-origin'' \<or> k = ''source'')"
proof -
  have o: "receives tr n ''openstack-origin'' v \<longleftrightarrow>
            openstack self = Some v \<and> v \<noteq> [] \<and> n \<notin> set us \<and> n \<notin> set no"
    unfolding tr_def n_def us_def no_def using mem by (rule receives_origin)
  have s: "\<And>v. receives tr n ''source'' v \<longleftrightarrow>
            source self = Some v \<and> v \<noteq> [] \<and> n \<in> set us \<and> n \<notin> set no"
    unfolding tr_def n_def us_def no_def using mem by (rule receives_source)
  have k: "receives tr n k v \<longrightarrow> k = ''openstack-origin'' \<or> k = ''source''"
    unfolding tr_def receives_new_calls by blast
  show ?thesis using o s k by blast
qed

theorem configuration_keys_witness:
  "1 \<in> set (list_objs ex_world 0 @ [4]) \<and> name (dicts ex_world 1) = ''mysql''
   \<and> receives (new_calls ex_world (add_services ex_self ex_world 4 0 None None))
       ''mysql'' ''source'' ''cloud:xenial-updates/newton''
   \<and> \<not> receives (new_calls ex_world (add_services ex_self ex_world 4 0 None None))
       ''mysql'' ''openstack-origin'' ''cloud:xenial-newton''
   \<and> 3 \<in> set (list_objs ex_world 0 @ [4]) \<and> name (dicts ex_world 3) = ''keystone''
   \<and> receives (new_calls ex_world (add_services ex_self ex_world 4 0 None None))
       ''keystone'' ''openstack-origin'' ''cloud:xenial-newton''
   \<and> ''mysql'' \<in> set (use_source_or_default (Some [''mysql'']))
   \<and> ''mysql'' \<in> set (no_origin_or_default (Some [''mysql'']))
   \<and> \<not> receives
        (new_calls ex_world (add_services ex_self ex_world 4 0 (Some [''mysql'']) (Some [''mysql''])))
        ''mysql'' ''source'' ''cloud:xenial-updates/newton''"
proof -
  have a: "1 \<in> set (list_objs ex_world 0 @ [4])" by (simp add: ex_world_def)
  have b: "3 \<in> set (list_objs ex_world 0 @ [4])" by (simp add: ex_world_def)
  have na: "name (dicts ex_world 1) = ''mysql''" by (simp add: ex_world_def)
  have nb: "name (dicts ex_world 3) = ''keystone''" by (simp add: ex_world_def)
  have u: "''mysql'' \<in> set (use_source_or_default None)"
    by (simp add: use_source_or_default_def default_use_source_def)
  have m: "''mysql'' \<notin> set (no_origin_or_default None)"
    by (simp add: no_origin_or_default_def default_no_origin_def)
  have ku: "''keystone'' \<notin> set (use_source_or_default None)"
    by (simp add: use_source_or_default_def default_use_source_def)
  have km: "''keystone'' \<notin> set (no_origin_or_default None)"
    by (simp add: no_origin_or_default_def default_no_origin_def)
  have u': "''mysql'' \<in> set (use_source_or_default (Some [''mysql'']))"
    by (simp add: use_source_or_default_def)
  have m': "''mysql'' \<in> set (no_origin_or_default (Some [''mysql'']))"
    by (simp add: no_origin_or_default_def)
  have os: "openstack ex_self = Some ''cloud:xenial-newton''" "''cloud:xenial-newton'' \<noteq> []"
    "source ex_self = Some ''cloud:xenial-updates/newton''" "''cloud:xenial-updates/newton'' \<noteq> []"
    by (simp_all add: ex_self_def)
  note t1 = configuration_keys [OF a, of ex_self None None "''cloud:xenial-updates/newton''"
      "''cloud:xenial-newton''" "''source''", unfolded na]
  note t1' = configuration_keys [OF a, of ex_self None None "''cloud:xenial-newton''"
      "''cloud:xenial-newton''" "''source''", unfolded na]
  note t2 = configuration_keys [OF b, of ex_self None None "''cloud:xenial-newton''"
      "''cloud:xenial-newton''" "''source''", unfolded nb]
  note t3 = configuration_keys [OF a, of ex_self "Some [''mysql'']" "Some [''mysql'']"
      "''cloud:xenial-updates/newton''" "''cloud:xenial-newton''" "''source''", unfolded na]
  have c1: "receives (new_calls ex_world (add_services ex_self ex_world 4 0 None None))
       ''mysql'' ''source'' ''cloud:xenial-updates/newton''"
    using t1 u m os by blast
  have c2: "\<not> receives (new_calls ex_world (add_services ex_self ex_world 4 0 None None))
       ''mysql'' ''openstack-origin'' ''cloud:xenial-newton''"
    using t1' u by blast
  have c3: "receives (new_calls ex_world (add_services ex_self ex_world 4 0 None None))
       ''keystone'' ''openstack-origin'' ''cloud:xenial-newton''"
    using t2 ku km os by blast
  have c4: "\<not> receives
        (new_calls ex_world (add_services ex_self ex_world 4 0 (Some [''mysql'']) (Some [''mysql''])))
        ''mysql'' ''source'' ''cloud:xenial-updates/newton''"
    using t3 u' m' by blast
  show ?thesis using a b na nb u' m' c1 c2 c3 c4 by blast
qed

subsection \<open>Locations handed to the driver\<close>

lemma determine_frame:
  "list_objs (fst (determine_branch_locations self w l)) = list_objs w"
  "d_services (fst (determine_branch_locations self w l)) = d_services w"
  "sentry_times_out (fst (determine_branch_locations self w l)) = sentry_times_out w"
  "calls (fst (determine_branch_locations self w l)) = calls w"
  "snd (determine_branch_locations self w l) = l"
  by (simp_all add: determine_branch_locations_def)

lemma determine_name:
  "name (dicts (fst (determine_branch_locations self w l)) r) = name (dicts w r)"
  by (simp add: determine_fst resolve_each_name)

lemma add_services_calls_shape:
  "\<exists>cfgs. new_calls w (add_services self w t l us no) =
      AddServices (dicts (fst (determine_branch_locations self w l)) t)
        (map (dicts (fst (determine_branch_locations self w l))) (list_objs w l)) # cfgs
    \<and> (\<forall>c\<in>set cfgs. \<exists>m config. c = Configure m config)"
  unfolding add_services_calls determine_fst by auto

text \<open>
  C8: after \<^verbatim>\<open>_determine_branch_locations\<close> every service of the other-services list
  has a non-empty location, and these are the specs the driver's \<^verbatim>\<open>add_services\<close>
  receives: it is the first call \<^verbatim>\<open>_add_services\<close> makes, the only one of its kind, and
  the calls after it are \<^verbatim>\<open>configure\<close> calls. Resolution changes nothing but the
  location fields of the dictionaries: the list, the driver and every name stay as they
  were. The tables \<^verbatim>\<open>base_charms\<close> and \<^verbatim>\<open>releases\<close> are literals local to their
  functions, constants here, which no operation takes or returns.
\<close>

theorem locations_before_driver:
  fixes self w this_service other_services use_source no_origin
  defines "w1 \<equiv> fst (determine_branch_locations self w other_services)"
    and "tr \<equiv> new_calls w (add_services self w this_service other_services use_source no_origin)"
  shows "(\<forall>r\<in>set (list_objs w other_services). truthy (location (dicts w1 r)))
       \<and> (\<exists>cfgs. tr = AddServices (dicts w1 this_service)
                          (map (dicts w1) (list_objs w other_services)) # cfgs
                 \<and> (\<forall>c\<in>set cfgs. \<exists>m config. c = Configure m config))
       \<and> (\<forall>t os. AddServices t os \<in> set tr \<longrightarrow> (\<forall>s\<in>set os. truthy (location s)))
       \<and> list_objs w1 = list_objs w \<and> d_services w1 = d_services w \<and> calls w1 = calls w
       \<and> snd (determine_branch_locations self w other_services) = other_services
       \<and> (\<forall>r. name (dicts w1 r) = name (dicts w r))"
proof -
  have a: "\<forall>r\<in>set (list_objs w other_services). truthy (location (dicts w1 r))"
    unfolding w1_def by (simp add: resolved_truthy)
  obtain cfgs where b: "tr = AddServices (dicts w1 this_service)
                          (map (dicts w1) (list_objs w other_services)) # cfgs"
      and c: "\<forall>c\<in>set cfgs. \<exists>m config. c = Configure m config"
    unfolding tr_def w1_def using add_services_calls_shape by blast
  have d: "\<forall>t os. AddServices t os \<in> set tr \<longrightarrow> (\<forall>s\<in>set os. truthy (location s))"
  proof (intro allI impI)
    fix t os
    assume "AddServices t os \<in> set tr"
    then have "os = map (dicts w1) (list_objs w other_services)"
      unfolding b using c by auto
    then show "\<forall>s\<in>set os. truthy (location s)" using a by simp
  qed
  show ?thesis
    using a b c d unfolding w1_def by (simp add: determine_frame determine_name)
qed

theorem locations_before_driver_witness:
  "1 \<in> set (list_objs ex_world 0)
   \<and> location (dicts ex_world 1) = None
   \<and> truthy (location (dicts (fst (determine_branch_locations ex_self ex_world 0)) 1))
   \<and> AddServices
        \<lparr>name = ''openvswitch-odl'', units = None, constraints = Some [(''mem'', ''8G'')],
         location = None\<rparr>
        [\<lparr>name = ''mysql'', units = None, constraints = Some [(''mem'', ''2G'')],
          location = Some ''cs:trusty/mysql''\<rparr>,
         \<lparr>name = ''nova-compute'', units = Some 2, constraints = Some [(''mem'', ''4G'')],
          location = Some ''cs:~bob/xenial/nova-compute''\<rparr>,
         \<lparr>name = ''keystone'', units = None, constraints = None,
          location = Some ''cs:~openstack-charmers-next/xenial/keystone''\<rparr>]
       \<in> set (new_calls ex_world (add_services ex_self ex_world 4 0 None None))
   \<and> truthy (location
        \<lparr>name = ''keystone'', units = None, constraints = None,
         location = Some ''cs:~openstack-charmers-next/xenial/keystone''\<rparr>)"
proof -
  let ?t = "\<lparr>name = ''openvswitch-odl'', units = None, constraints = Some [(''mem'', ''8G'')],
         location = None\<rparr>"
  let ?k = "\<lparr>name = ''keystone'', units = None, constraints = None,
         location = Some ''cs:~openstack-charmers-next/xenial/keystone''\<rparr>"
  let ?os = "[\<lparr>name = ''mysql'', units = None, constraints = Some [(''mem'', ''2G'')],
          location = Some ''cs:trusty/mysql''\<rparr>,
         \<lparr>name = ''nova-compute'', units = Some 2, constraints = Some [(''mem'', ''4G'')],
          location = Some ''cs:~bob/xenial/nova-compute''\<rparr>, ?k]"
  note t = locations_before_driver [of ex_world 0 ex_self 4 None None]
  have a: "1 \<in> set (list_objs ex_world 0)" by (simp add: ex_world_def)
  have b: "truthy (location (dicts (fst (determine_branch_locations ex_self ex_world 0)) 1))"
    using t a by blast
  have c: "location (dicts ex_world 1) = None" by (simp add: ex_world_def)
  have d: "AddServices ?t ?os
      \<in> set (new_calls ex_world (add_services ex_self ex_world 4 0 None None))"
    by (simp add: ex_trace)
  have "\<forall>s\<in>set ?os. truthy (location s)" using t d by blast
  moreover have "?k \<in> set ?os" by simp
  ultimately have e: "truthy (location ?k)" by blast
  show ?thesis using a b c d e by blast
qed

subsection \<open>Empty override lists\<close>

text \<open>
  C9: an empty list for \<^verbatim>\<open>use_source\<close> or for \<^verbatim>\<open>no_origin\<close> gives the same result
  as leaving the argument out: the built-in default list is used in its place.
\<close>

theorem empty_override_is_default:
  "add_services self w this_service other_services (Some []) no_origin
     = add_services self w this_service other_services None no_origin
   \<and> add_services self w this_service other_services use_source (Some [])
     = add_services self w this_service other_services use_source None
   \<and> use_source_or_default (Some []) = default_use_source
   \<and> no_origin_or_default (Some []) = default_no_origin"
  by (simp add: add_services_def use_source_or_default_def no_origin_or_default_def)

theorem empty_override_is_default_witness:
  "add_services ex_self ex_world 4 0 (Some []) (Some []) = add_services ex_self ex_world 4 0 None None
   \<and> receives (new_calls ex_world (add_services ex_self ex_world 4 0 (Some []) (Some [])))
       ''mysql'' ''source'' ''cloud:xenial-updates/newton''
   \<and> \<not> receives (new_calls ex_world (add_services ex_self ex_world 4 0 (Some []) (Some [])))
       ''openvswitch-odl'' ''openstack-origin'' ''cloud:xenial-newton''"
proof -
  have e: "add_services ex_self ex_world 4 0 (Some []) (Some [])
      = add_services ex_self ex_world 4 0 None None"
    using empty_override_is_default [of ex_self ex_world 4 0 "Some []"]
      empty_override_is_default [of ex_self ex_world 4 0 _ None]
    by simp
  have a: "receives (new_calls ex_world (add_services ex_self ex_world 4 0 None None))
       ''mysql'' ''source'' ''cloud:xenial-updates/newton''"
    unfolding receives_new_calls
    by (simp add: ex_self_def ex_world_def use_source_or_default_def no_origin_or_default_def
        default_use_source_def default_no_origin_def)
  have b: "\<not> receives (new_calls ex_world (add_services ex_self ex_world 4 0 None None))
       ''openvswitch-odl'' ''openstack-origin'' ''cloud:xenial-newton''"
    unfolding receives_new_calls
    by (simp add: ex_self_def ex_world_def use_source_or_default_def no_origin_or_default_def
        default_use_source_def default_no_origin_def)
  show ?thesis using e a b by simp
qed

subsection \<open>The service under test\<close>

text \<open>
  C10: \<^verbatim>\<open>_add_services\<close> appends the service under test to the caller's list object
  (and touches no other list). Branch-location resolution and the driver's
  \<^verbatim>\<open>add_services\<close> come before that, on the other services only: the dictionaries
  at the end are those resolution produced from the list as the caller passed it. So the
  two configuration loops treat the name of the service under test like any other, while
  resolution has not given it a location: its location is as before, provided it is not
  itself one of the objects in the other-services list.
\<close>

theorem target_appended_in_place:
  fixes self w this_service other_services use_source no_origin
  defines "w' \<equiv> add_services self w this_service other_services use_source no_origin"
    and "n \<equiv> name (dicts w this_service)"
    and "us \<equiv> use_source_or_default use_source"
    and "no \<equiv> no_origin_or_default no_origin"
  shows "list_objs w' other_services = list_objs w other_services @ [this_service]
       \<and> (\<forall>l. l \<noteq> other_services \<longrightarrow> list_objs w' l = list_objs w l)
       \<and> dicts w' = dicts (fst (determine_branch_locations self w other_services))
       \<and> (\<exists>cfgs. new_calls w w' =
            AddServices (dicts w' this_service) (map (dicts w') (list_objs w other_services))
            # cfgs)
       \<and> (receives (new_calls w w') n ''openstack-origin'' v \<longleftrightarrow>
            openstack self = Some v \<and> v \<noteq> [] \<and> n \<notin> set us \<and> n \<notin> set no)
       \<and> (receives (new_calls w w') n ''source'' v \<longleftrightarrow>
            source self = Some v \<and> v \<noteq> [] \<and> n \<in> set us \<and> n \<notin> set no)
       \<and> (this_service \<notin> set (list_objs w other_services) \<longrightarrow>
            location (dicts w' this_service) = location (dicts w this_service))"
proof -
  have m: "this_service \<in> set (list_objs w other_services @ [this_service])" by simp
  have a: "list_objs w' other_services = list_objs w other_services @ [this_service]"
    unfolding w'_def by (simp add: add_services_list)
  have b: "\<forall>l. l \<noteq> other_services \<longrightarrow> list_objs w' l = list_objs w l"
    unfolding w'_def by (simp add: add_services_list)
  have c: "receives (new_calls w w') n ''openstack-origin'' v \<longleftrightarrow>
            openstack self = Some v \<and> v \<noteq> [] \<and> n \<notin> set us \<and> n \<notin> set no"
    unfolding w'_def n_def us_def no_def using m by (rule receives_origin)
  have d: "receives (new_calls w w') n ''source'' v \<longleftrightarrow>
            source self = Some v \<and> v \<noteq> [] \<and> n \<in> set us \<and> n \<notin> set no"
    unfolding w'_def n_def us_def no_def using m by (rule receives_source)
  have e: "this_service \<notin> set (list_objs w other_services) \<longrightarrow>
            location (dicts w' this_service) = location (dicts w this_service)"
    unfolding w'_def by (simp add: add_services_dicts resolve_each_apply)
  have f: "\<exists>cfgs. new_calls w w' =
            AddServices (dicts w' this_service) (map (dicts w') (list_objs w other_services))
            # cfgs"
    unfolding w'_def add_services_calls add_services_dicts by blast
  have g: "dicts w' = dicts (fst (determine_branch_locations self w other_services))"
    unfolding w'_def by (simp add: add_services_dicts determine_fst)
  show ?thesis using a b c d e f g by blast
qed

theorem target_appended_in_place_witness:
  "4 \<notin> set (list_objs ex_world 0)
   \<and> list_objs ex_world 0 = [1, 2, 3]
   \<and> list_objs (add_services ex_self ex_world 4 0 None None) 0 = [1, 2, 3, 4]
   \<and> location (dicts ex_world 4) = None
   \<and> location (dicts (add_services ex_self ex_world 4 0 None None) 4) = None
   \<and> (7::nat) \<noteq> 0
   \<and> list_objs (add_services ex_self ex_world 4 0 None None) 7 = []"
proof -
  note t = target_appended_in_place [of ex_self ex_world 4 0 None None]
  have h: "4 \<notin> set (list_objs ex_world 0)" by (simp add: ex_world_def)
  have g: "(7::nat) \<noteq> 0" by simp
  have a: "list_objs (add_services ex_self ex_world 4 0 None None) 0 = list_objs ex_world 0 @ [4]"
    using t by blast
  have b: "location (dicts (add_services ex_self ex_world 4 0 None None) 4)
      = location (dicts ex_world 4)"
    using t h by blast
  have c: "list_objs (add_services ex_self ex_world 4 0 None None) 7 = list_objs ex_world 7"
    using t g by blast
  show ?thesis using h g a b c by (simp add: ex_world_def)
qed

text \<open>
  When the service under test is also an object of the other-services list, it is resolved
  there as an entry of that list.
\<close>

lemma target_in_list_resolved:
  assumes "this_service \<in> set (list_objs w other_services)"
    "\<not> truthy (location (dicts w this_service))"
  shows "truthy (location
    (dicts (add_services self w this_service other_services use_source no_origin) this_service))"
  using assms by (simp add: add_services_dicts resolve_each_apply branch_location_nonempty)

subsection \<open>Waiting for the extended status\<close>

text \<open>
  C6: when both \<^verbatim>\<open>exclude_services\<close> and \<^verbatim>\<open>include_only\<close> are non-empty,
  \<^verbatim>\<open>_auto_wait_for_status\<close> raises \<^verbatim>\<open>ValueError\<close> and no call reaches the sentry:
  the state is unchanged.
\<close>

theorem conflicting_selection:
  assumes "truthy_list exclude_services" "truthy_list include_only"
  shows "fst (auto_wait_for_status w message exclude_services include_only timeout) = Inl ValueError
       \<and> snd (auto_wait_for_status w message exclude_services include_only timeout) = w
       \<and> new_calls w (snd (auto_wait_for_status w message exclude_services include_only timeout)) = []"
  using assms by (simp add: auto_wait_for_status_def new_calls_def)

theorem conflicting_selection_witness:
  "truthy_list (Some [''mysql'']) \<and> truthy_list (Some [''keystone''])
   \<and> auto_wait_for_status ex_world None (Some [''mysql'']) (Some [''keystone'']) 1800
       = (Inl ValueError, ex_world)
   \<and> new_calls ex_world
       (snd (auto_wait_for_status ex_world None (Some [''mysql'']) (Some [''keystone'']) 1800)) = []"
proof -
  have a: "truthy_list (Some [''mysql''])" by simp
  have b: "truthy_list (Some [''keystone''])" by simp
  note t = conflicting_selection [OF a b, of ex_world None 1800]
  have c: "auto_wait_for_status ex_world None (Some [''mysql'']) (Some [''keystone'']) 1800
       = (Inl ValueError, ex_world)"
    using t by (simp add: prod_eq_iff)
  show ?thesis using a b c t by blast
qed

text \<open>Otherwise the sentry is called exactly once, with the timeout passed through.\<close>

lemma wait_reaches_sentry:
  assumes "\<not> (truthy_list exclude_services \<and> truthy_list include_only)"
  shows "\<exists>m. new_calls w (snd (auto_wait_for_status w message exclude_services include_only timeout))
      = [WaitForMessages m timeout]"
  using assms
  by (auto simp: auto_wait_for_status_def sentry_wait_for_messages_def new_calls_def Let_def)

end
